theory Spec2Isabelle
  imports Complex_Main "HOL-Library.AList"
begin

section \<open>Python values\<close>

text \<open>
  The exceptions the modelled functions can raise. A \<open>ValueError\<close> carries its message,
  since the solver's "no candidates" error and \<open>math.log2\<close>'s domain error are both
  \<open>ValueError\<close>s in Python and differ only there.
\<close>

datatype error = IndexError | KeyError | ZeroDivisionError | ValueError string

text \<open>
  A word is a Python \<open>bytes\<close> object: a sequence of bytes, here a \<open>char list\<close>.
  Indexing a \<open>bytes\<close> object yields the integer value of the byte.
\<close>

type_synonym bytes = string

definition ORD_A :: int where
  "ORD_A = 97"

text \<open>\<open>range(n)\<close>: empty when \<open>n \<le> 0\<close>.\<close>

definition py_range :: "int \<Rightarrow> nat list" where
  "py_range n = [0..<nat n]"

text \<open>\<open>w[i]\<close> for a non-negative index \<open>i\<close> into a \<open>bytes\<close> object.\<close>

definition byte_at :: "bytes \<Rightarrow> nat \<Rightarrow> error + int" where
  "byte_at w i = (if i < length w then Inr (of_char (w ! i)) else Inl IndexError)"

text \<open>
  Python's index normalisation for a list of length \<open>n\<close>: an index in \<open>[0, n)\<close> is used as
  it is, one in \<open>[-n, 0)\<close> counts from the end, anything else raises \<open>IndexError\<close>.
\<close>

definition list_index :: "nat \<Rightarrow> int \<Rightarrow> error + nat" where
  "list_index n k =
     (if 0 \<le> k \<and> k < int n then Inr (nat k)
      else if - int n \<le> k \<and> k < 0 then Inr (nat (int n + k))
      else Inl IndexError)"

section \<open>utils.py\<close>

definition all_green_pattern :: "int \<Rightarrow> int" where
  "all_green_pattern word_length = 3 ^ nat word_length - 1"

text \<open>The loop of \<open>pattern_to_tiles\<close>: appends \<open>pattern % 3\<close> and divides, once per position.\<close>

fun pattern_to_tiles_loop :: "nat \<Rightarrow> int \<Rightarrow> int list \<Rightarrow> int list" where
  "pattern_to_tiles_loop 0 pattern tiles = tiles"
| "pattern_to_tiles_loop (Suc k) pattern tiles =
     pattern_to_tiles_loop k (pattern div 3) (tiles @ [pattern mod 3])"

definition pattern_to_tiles :: "int \<Rightarrow> int \<Rightarrow> int list" where
  "pattern_to_tiles pattern word_length =
     rev (pattern_to_tiles_loop (nat word_length) pattern [])"

definition tiles_to_pattern :: "int list \<Rightarrow> int" where
  "tiles_to_pattern tiles = fold (\<lambda>t pattern. pattern * 3 + t) tiles 0"

section \<open>feedback.py\<close>

subsection \<open>The three loops of the two-pass algorithm\<close>

text \<open>
  \<open>for i in range(word_length): counts[secret[i] - a] += 1\<close>
\<close>

fun count_letters :: "bytes \<Rightarrow> nat list \<Rightarrow> int list \<Rightarrow> error + int list" where
  "count_letters secret [] counts = Inr counts"
| "count_letters secret (i # is) counts =
     (case byte_at secret i of
        Inl e \<Rightarrow> Inl e
      | Inr c \<Rightarrow>
          (case list_index (length counts) (c - ORD_A) of
             Inl e \<Rightarrow> Inl e
           | Inr k \<Rightarrow> count_letters secret is (counts[k := counts ! k + 1])))"

text \<open>
  Pass 1:
  \<open>for i in range(word_length): if guess[i] == secret[i]: result[i] = 2; counts[guess[i] - a] -= 1\<close>
\<close>

fun mark_greens ::
  "bytes \<Rightarrow> bytes \<Rightarrow> nat list \<Rightarrow> int list \<times> int list \<Rightarrow> error + int list \<times> int list" where
  "mark_greens guess secret [] (result, counts) = Inr (result, counts)"
| "mark_greens guess secret (i # is) (result, counts) =
     (case byte_at guess i of
        Inl e \<Rightarrow> Inl e
      | Inr gc \<Rightarrow>
          (case byte_at secret i of
             Inl e \<Rightarrow> Inl e
           | Inr sc \<Rightarrow>
               if gc = sc then
                 (if i < length result then
                    (case list_index (length counts) (gc - ORD_A) of
                       Inl e \<Rightarrow> Inl e
                     | Inr k \<Rightarrow>
                         mark_greens guess secret is
                           (result[i := 2], counts[k := counts ! k - 1]))
                  else Inl IndexError)
               else mark_greens guess secret is (result, counts)))"

text \<open>
  Pass 2:
  \<open>for i in range(word_length): if result[i] == 0: idx = guess[i] - a;
     if counts[idx] > 0: result[i] = 1; counts[idx] -= 1\<close>
\<close>

fun mark_yellows ::
  "bytes \<Rightarrow> nat list \<Rightarrow> int list \<times> int list \<Rightarrow> error + int list \<times> int list" where
  "mark_yellows guess [] (result, counts) = Inr (result, counts)"
| "mark_yellows guess (i # is) (result, counts) =
     (if i < length result then
        (if result ! i = 0 then
           (case byte_at guess i of
              Inl e \<Rightarrow> Inl e
            | Inr gc \<Rightarrow>
                (case list_index (length counts) (gc - ORD_A) of
                   Inl e \<Rightarrow> Inl e
                 | Inr k \<Rightarrow>
                     if counts ! k > 0 then
                       mark_yellows guess is (result[i := 1], counts[k := counts ! k - 1])
                     else mark_yellows guess is (result, counts)))
         else mark_yellows guess is (result, counts))
      else Inl IndexError)"

subsection \<open>compute_pattern\<close>

definition compute_pattern :: "bytes \<Rightarrow> bytes \<Rightarrow> int \<Rightarrow> error + int" where
  "compute_pattern guess secret word_length =
     (case count_letters secret (py_range word_length) (replicate 26 0) of
        Inl e \<Rightarrow> Inl e
      | Inr counts \<Rightarrow>
          (case mark_greens guess secret (py_range word_length)
                  (replicate (nat word_length) 0, counts) of
             Inl e \<Rightarrow> Inl e
           | Inr (result, counts1) \<Rightarrow>
               (case mark_yellows guess (py_range word_length) (result, counts1) of
                  Inl e \<Rightarrow> Inl e
                | Inr (result2, counts2) \<Rightarrow>
                    Inr (fold (\<lambda>v pattern. pattern * 3 + v) result2 0))))"

subsection \<open>compute_pattern_batch\<close>

text \<open>
  The remaining functions of the module repeat the body of \<open>compute_pattern\<close> inline for
  every secret (with \<open>a = _ORD_A\<close> bound locally); each loop below does the same.
\<close>

fun compute_pattern_batch_loop ::
  "bytes \<Rightarrow> bytes list \<Rightarrow> int \<Rightarrow> int list \<Rightarrow> error + int list" where
  "compute_pattern_batch_loop guess [] word_length patterns = Inr patterns"
| "compute_pattern_batch_loop guess (secret # rest) word_length patterns =
     (case count_letters secret (py_range word_length) (replicate 26 0) of
        Inl e \<Rightarrow> Inl e
      | Inr counts \<Rightarrow>
          (case mark_greens guess secret (py_range word_length)
                  (replicate (nat word_length) 0, counts) of
             Inl e \<Rightarrow> Inl e
           | Inr (result, counts1) \<Rightarrow>
               (case mark_yellows guess (py_range word_length) (result, counts1) of
                  Inl e \<Rightarrow> Inl e
                | Inr (result2, counts2) \<Rightarrow>
                    compute_pattern_batch_loop guess rest word_length
                      (patterns @ [fold (\<lambda>v p. p * 3 + v) result2 0]))))"

definition compute_pattern_batch :: "bytes \<Rightarrow> bytes list \<Rightarrow> int \<Rightarrow> error + int list" where
  "compute_pattern_batch guess candidates word_length =
     compute_pattern_batch_loop guess candidates word_length []"

subsection \<open>bucket_sizes\<close>

text \<open>
  A Python \<open>dict\<close> keeps its keys in insertion order, and assigning to a key that is present
  keeps the key's place: an association list under \<open>AList.update\<close>, read with \<open>map_of\<close>.
  \<open>buckets[p] = buckets.get(p, 0) + 1\<close>
\<close>

fun bucket_sizes_loop ::
  "bytes \<Rightarrow> bytes list \<Rightarrow> int \<Rightarrow> (int \<times> int) list \<Rightarrow> error + (int \<times> int) list" where
  "bucket_sizes_loop guess [] word_length buckets = Inr buckets"
| "bucket_sizes_loop guess (secret # rest) word_length buckets =
     (case count_letters secret (py_range word_length) (replicate 26 0) of
        Inl e \<Rightarrow> Inl e
      | Inr counts \<Rightarrow>
          (case mark_greens guess secret (py_range word_length)
                  (replicate (nat word_length) 0, counts) of
             Inl e \<Rightarrow> Inl e
           | Inr (result, counts1) \<Rightarrow>
               (case mark_yellows guess (py_range word_length) (result, counts1) of
                  Inl e \<Rightarrow> Inl e
                | Inr (result2, counts2) \<Rightarrow>
                    (let p = fold (\<lambda>v p. p * 3 + v) result2 0 in
                     bucket_sizes_loop guess rest word_length
                       (AList.update p
                          ((case map_of buckets p of None \<Rightarrow> 0 | Some c \<Rightarrow> c) + 1)
                          buckets)))))"

definition bucket_sizes :: "bytes \<Rightarrow> bytes list \<Rightarrow> int \<Rightarrow> error + (int \<times> int) list" where
  "bucket_sizes guess candidates word_length =
     bucket_sizes_loop guess candidates word_length []"

text \<open>\<open>buckets.values()\<close>, in the dictionary's order.\<close>

definition dict_values :: "('k \<times> 'v) list \<Rightarrow> 'v list" where
  "dict_values d = map snd d"

subsection \<open>bucket_by_pattern\<close>

text \<open>
  \<open>if p in buckets: buckets[p].append(secret) else: buckets[p] = [secret]\<close>
\<close>

fun bucket_by_pattern_loop ::
  "bytes \<Rightarrow> bytes list \<Rightarrow> int \<Rightarrow> (int \<times> bytes list) list \<Rightarrow>
   error + (int \<times> bytes list) list" where
  "bucket_by_pattern_loop guess [] word_length buckets = Inr buckets"
| "bucket_by_pattern_loop guess (secret # rest) word_length buckets =
     (case count_letters secret (py_range word_length) (replicate 26 0) of
        Inl e \<Rightarrow> Inl e
      | Inr counts \<Rightarrow>
          (case mark_greens guess secret (py_range word_length)
                  (replicate (nat word_length) 0, counts) of
             Inl e \<Rightarrow> Inl e
           | Inr (result, counts1) \<Rightarrow>
               (case mark_yellows guess (py_range word_length) (result, counts1) of
                  Inl e \<Rightarrow> Inl e
                | Inr (result2, counts2) \<Rightarrow>
                    (let p = fold (\<lambda>v p. p * 3 + v) result2 0 in
                     bucket_by_pattern_loop guess rest word_length
                       (case map_of buckets p of
                          Some ws \<Rightarrow> AList.update p (ws @ [secret]) buckets
                        | None \<Rightarrow> AList.update p [secret] buckets)))))"

definition bucket_by_pattern ::
  "bytes \<Rightarrow> bytes list \<Rightarrow> int \<Rightarrow> error + (int \<times> bytes list) list" where
  "bucket_by_pattern guess candidates word_length =
     bucket_by_pattern_loop guess candidates word_length []"

subsection \<open>filter_candidates\<close>

fun filter_candidates_loop ::
  "bytes list \<Rightarrow> bytes \<Rightarrow> int \<Rightarrow> int \<Rightarrow> bytes list \<Rightarrow> error + bytes list" where
  "filter_candidates_loop [] guess pattern word_length result_list = Inr result_list"
| "filter_candidates_loop (secret # rest) guess pattern word_length result_list =
     (case count_letters secret (py_range word_length) (replicate 26 0) of
        Inl e \<Rightarrow> Inl e
      | Inr counts \<Rightarrow>
          (case mark_greens guess secret (py_range word_length)
                  (replicate (nat word_length) 0, counts) of
             Inl e \<Rightarrow> Inl e
           | Inr (result, counts1) \<Rightarrow>
               (case mark_yellows guess (py_range word_length) (result, counts1) of
                  Inl e \<Rightarrow> Inl e
                | Inr (result2, counts2) \<Rightarrow>
                    (let p = fold (\<lambda>v p. p * 3 + v) result2 0 in
                     if p = pattern then
                       filter_candidates_loop rest guess pattern word_length
                         (result_list @ [secret])
                     else
                       filter_candidates_loop rest guess pattern word_length result_list))))"

definition filter_candidates ::
  "bytes list \<Rightarrow> bytes \<Rightarrow> int \<Rightarrow> int \<Rightarrow> error + bytes list" where
  "filter_candidates candidates guess pattern word_length =
     filter_candidates_loop candidates guess pattern word_length []"

subsection \<open>Well-formed words\<close>

text \<open>
  The precondition of the module: a word has exactly \<open>word_length\<close> bytes, each a lowercase
  ASCII letter (\<open>97 .. 122\<close>).
\<close>

definition lowercase :: "bytes \<Rightarrow> bool" where
  "lowercase w = list_all (\<lambda>c. (97::int) \<le> of_char c \<and> of_char c \<le> (122::int)) w"

definition is_word :: "int \<Rightarrow> bytes \<Rightarrow> bool" where
  "is_word word_length w = (int (length w) = word_length \<and> lowercase w)"

definition all_words :: "int \<Rightarrow> bytes list \<Rightarrow> bool" where
  "all_words word_length ws = list_all (is_word word_length) ws"

section \<open>strategies.py\<close>

text \<open>
  Scores are Python floats. They are modelled as real numbers, with \<open>float("-inf")\<close> as
  \<open>None\<close> of \<open>real option\<close>: the model is exact where the floating-point computation
  rounds. The general statements below therefore assert of scores only what rounding
  cannot change: whether a call raises, which pool is scored, and the sign of the entropy
  sum. No bound that a rounded sum could cross is stated.
\<close>

datatype strategy_fn =
  score_frequency_fn | score_entropy_fn | score_expected_size_fn | score_minimax_fn
  | score_hybrid_fn

text \<open>The registry, in registration order of the \<open>@register\<close> decorators.\<close>

definition STRATEGIES :: "(string \<times> strategy_fn) list" where
  "STRATEGIES =
     [(''frequency'', score_frequency_fn), (''entropy'', score_entropy_fn),
      (''expected_size'', score_expected_size_fn), (''minimax'', score_minimax_fn),
      (''hybrid'', score_hybrid_fn)]"

definition get_strategy :: "string \<Rightarrow> error + strategy_fn" where
  "get_strategy name =
     (case map_of STRATEGIES name of None \<Rightarrow> Inl KeyError | Some fn \<Rightarrow> Inr fn)"

definition list_strategies :: "string list" where
  "list_strategies = map fst STRATEGIES"

subsection \<open>Letter statistics shared by score_frequency and score_frequency_batch\<close>

text \<open>\<open>d.get(c, 0)\<close> on a dictionary used only through \<open>get\<close> and assignment.\<close>

definition dict_get0 :: "(int \<rightharpoonup> int) \<Rightarrow> int \<Rightarrow> int" where
  "dict_get0 d c = (case d c of None \<Rightarrow> 0 | Some v \<Rightarrow> v)"

text \<open>
  The inner loop over the positions of one candidate \<open>w\<close>:
  \<open>c = w[i]; pos_freq[i][c] = pos_freq[i].get(c, 0) + 1;
    if c not in seen: presence_count[c] = presence_count.get(c, 0) + 1; seen.add(c)\<close>
\<close>

fun letter_stats_word ::
  "bytes \<Rightarrow> nat list \<Rightarrow> (int \<rightharpoonup> int) list \<times> (int \<rightharpoonup> int) \<times> int set \<Rightarrow>
   error + (int \<rightharpoonup> int) list \<times> (int \<rightharpoonup> int) \<times> int set" where
  "letter_stats_word w [] (pos_freq, presence_count, seen) =
     Inr (pos_freq, presence_count, seen)"
| "letter_stats_word w (i # is) (pos_freq, presence_count, seen) =
     (case byte_at w i of
        Inl e \<Rightarrow> Inl e
      | Inr c \<Rightarrow>
          if i < length pos_freq then
            (let pos_freq1 = pos_freq[i := (pos_freq ! i)(c \<mapsto> dict_get0 (pos_freq ! i) c + 1)] in
             if c \<notin> seen then
               letter_stats_word w is
                 (pos_freq1, presence_count(c \<mapsto> dict_get0 presence_count c + 1), insert c seen)
             else letter_stats_word w is (pos_freq1, presence_count, seen))
          else Inl IndexError)"

text \<open>The outer loop \<open>for w in candidates: seen = set(); ...\<close>\<close>

fun letter_stats ::
  "bytes list \<Rightarrow> int \<Rightarrow> (int \<rightharpoonup> int) list \<times> (int \<rightharpoonup> int) \<Rightarrow>
   error + (int \<rightharpoonup> int) list \<times> (int \<rightharpoonup> int)" where
  "letter_stats [] word_length (pos_freq, presence_count) = Inr (pos_freq, presence_count)"
| "letter_stats (w # ws) word_length (pos_freq, presence_count) =
     (case letter_stats_word w (py_range word_length) (pos_freq, presence_count, {}) of
        Inl e \<Rightarrow> Inl e
      | Inr (pos_freq1, presence_count1, seen) \<Rightarrow>
          letter_stats ws word_length (pos_freq1, presence_count1))"

text \<open>
  The loop over the positions of the guess:
  \<open>c = guess[i]; score += w_pos * pos_freq[i].get(c, 0) / n;
    if c not in seen_in_guess: score += w_presence * presence_count.get(c, 0) / n;
                               seen_in_guess.add(c)\<close>
  with \<open>w_pos = 1.0\<close> and \<open>w_presence = 0.5\<close>.
\<close>

fun score_letters ::
  "bytes \<Rightarrow> nat list \<Rightarrow> (int \<rightharpoonup> int) list \<Rightarrow> (int \<rightharpoonup> int) \<Rightarrow> nat \<Rightarrow> real \<times> int set \<Rightarrow>
   error + real \<times> int set" where
  "score_letters guess [] pos_freq presence_count n (score, seen_in_guess) =
     Inr (score, seen_in_guess)"
| "score_letters guess (i # is) pos_freq presence_count n (score, seen_in_guess) =
     (case byte_at guess i of
        Inl e \<Rightarrow> Inl e
      | Inr c \<Rightarrow>
          if i < length pos_freq then
            (if n = 0 then Inl ZeroDivisionError
             else
               (let score1 = score + 1 * real_of_int (dict_get0 (pos_freq ! i) c) / real n in
                if c \<notin> seen_in_guess then
                  score_letters guess is pos_freq presence_count n
                    (score1 + (1 / 2) * real_of_int (dict_get0 presence_count c) / real n,
                     insert c seen_in_guess)
                else score_letters guess is pos_freq presence_count n (score1, seen_in_guess)))
          else Inl IndexError)"

text \<open>
  The score of one guess from the statistics: the loop above, then
  \<open>duplicates = word_length - len(seen_in_guess); score -= w_dup * duplicates;
    if guess in candidates: score += 0.1\<close> with \<open>w_dup = 0.3\<close>.
\<close>

definition frequency_score ::
  "bytes \<Rightarrow> bytes list \<Rightarrow> int \<Rightarrow> (int \<rightharpoonup> int) list \<Rightarrow> (int \<rightharpoonup> int) \<Rightarrow> error + real" where
  "frequency_score guess candidates word_length pos_freq presence_count =
     (case score_letters guess (py_range word_length) pos_freq presence_count
             (length candidates) (0, {}) of
        Inl e \<Rightarrow> Inl e
      | Inr (score, seen_in_guess) \<Rightarrow>
          (let duplicates = word_length - int (card seen_in_guess);
               score1 = score - (3 / 10) * real_of_int duplicates
           in Inr (if guess \<in> set candidates then score1 + 1 / 10 else score1)))"

subsection \<open>score_frequency\<close>

definition score_frequency :: "bytes \<Rightarrow> bytes list \<Rightarrow> int \<Rightarrow> error + real" where
  "score_frequency guess candidates word_length =
     (if length candidates = 0 then Inr 0
      else
        (case letter_stats candidates word_length
                (replicate (nat word_length) Map.empty, Map.empty) of
           Inl e \<Rightarrow> Inl e
         | Inr (pos_freq, presence_count) \<Rightarrow>
             frequency_score guess candidates word_length pos_freq presence_count))"

subsection \<open>The selection loop shared in shape by score_frequency_batch and Solver._score_pool\<close>

text \<open>
  \<open>score > best_score or (score == best_score and g_is_candidate and not best_is_candidate)\<close>
  where \<open>best_score\<close> starts as \<open>float("-inf")\<close>.
\<close>

definition improves :: "real \<Rightarrow> bool \<Rightarrow> real option \<Rightarrow> bool \<Rightarrow> bool" where
  "improves score g_is_candidate best_score best_is_candidate =
     (case best_score of
        None \<Rightarrow> True
      | Some b \<Rightarrow> score > b \<or> (score = b \<and> g_is_candidate \<and> \<not> best_is_candidate))"

subsection \<open>score_frequency_batch\<close>

fun score_frequency_batch_loop ::
  "bytes list \<Rightarrow> bytes list \<Rightarrow> int \<Rightarrow> (int \<rightharpoonup> int) list \<Rightarrow> (int \<rightharpoonup> int) \<Rightarrow>
   real option \<times> bytes \<times> bool \<Rightarrow> error + bytes" where
  "score_frequency_batch_loop [] candidates word_length pos_freq presence_count
     (best_score, best_guess, best_is_candidate) = Inr best_guess"
| "score_frequency_batch_loop (guess # rest) candidates word_length pos_freq presence_count
     (best_score, best_guess, best_is_candidate) =
     (case frequency_score guess candidates word_length pos_freq presence_count of
        Inl e \<Rightarrow> Inl e
      | Inr score \<Rightarrow>
          (let g_is_candidate = (guess \<in> set candidates) in
           if improves score g_is_candidate best_score best_is_candidate then
             score_frequency_batch_loop rest candidates word_length pos_freq presence_count
               (Some score, guess, g_is_candidate)
           else
             score_frequency_batch_loop rest candidates word_length pos_freq presence_count
               (best_score, best_guess, best_is_candidate)))"

definition score_frequency_batch :: "bytes list \<Rightarrow> bytes list \<Rightarrow> int \<Rightarrow> error + bytes" where
  "score_frequency_batch pool candidates word_length =
     (if length candidates = 0 then
        (case pool of [] \<Rightarrow> Inl IndexError | g # _ \<Rightarrow> Inr g)
      else
        (case letter_stats candidates word_length
                (replicate (nat word_length) Map.empty, Map.empty) of
           Inl e \<Rightarrow> Inl e
         | Inr (pos_freq, presence_count) \<Rightarrow>
             (case pool of
                [] \<Rightarrow> Inl IndexError
              | g # _ \<Rightarrow>
                  score_frequency_batch_loop pool candidates word_length pos_freq presence_count
                    (None, g, False))))"

subsection \<open>score_entropy\<close>

definition math_domain_error :: string where
  "math_domain_error = ''math domain error''"

text \<open>
  \<open>for count in buckets.values(): p = count / n; entropy -= p * math.log2(p)\<close>;
  \<open>math.log2\<close> raises \<open>ValueError\<close> outside the positive numbers.
\<close>

fun entropy_loop :: "int list \<Rightarrow> nat \<Rightarrow> real \<Rightarrow> error + real" where
  "entropy_loop [] n entropy = Inr entropy"
| "entropy_loop (count # rest) n entropy =
     (if n = 0 then Inl ZeroDivisionError
      else
        (let p = real_of_int count / real n in
         if p \<le> 0 then Inl (ValueError math_domain_error)
         else entropy_loop rest n (entropy - p * log 2 p)))"

definition score_entropy :: "bytes \<Rightarrow> bytes list \<Rightarrow> int \<Rightarrow> error + real" where
  "score_entropy guess candidates word_length =
     (let n = length candidates in
      if n \<le> 1 then Inr 0
      else
        (case bucket_sizes guess candidates word_length of
           Inl e \<Rightarrow> Inl e
         | Inr buckets \<Rightarrow> entropy_loop (dict_values buckets) n 0))"

subsection \<open>score_expected_size\<close>

definition score_expected_size :: "bytes \<Rightarrow> bytes list \<Rightarrow> int \<Rightarrow> error + real" where
  "score_expected_size guess candidates word_length =
     (let n = length candidates in
      if n \<le> 1 then Inr 0
      else
        (case bucket_sizes guess candidates word_length of
           Inl e \<Rightarrow> Inl e
         | Inr buckets \<Rightarrow>
             (let sum_sq = sum_list (map (\<lambda>c. c * c) (dict_values buckets))
              in Inr (- (real_of_int sum_sq / real n)))))"

subsection \<open>score_minimax\<close>

definition max_empty_error :: string where
  "max_empty_error = ''max() arg is an empty sequence''"

definition score_minimax :: "bytes \<Rightarrow> bytes list \<Rightarrow> int \<Rightarrow> error + real" where
  "score_minimax guess candidates word_length =
     (if candidates = [] then Inr 0
      else
        (case bucket_sizes guess candidates word_length of
           Inl e \<Rightarrow> Inl e
         | Inr buckets \<Rightarrow>
             (case dict_values buckets of
                [] \<Rightarrow> Inl (ValueError max_empty_error)
              | v # vs \<Rightarrow> Inr (- real_of_int (fold max vs v)))))"

subsection \<open>score_hybrid\<close>

definition score_hybrid :: "bytes \<Rightarrow> bytes list \<Rightarrow> int \<Rightarrow> int \<Rightarrow> int \<Rightarrow> error + real" where
  "score_hybrid guess candidates word_length turn max_turns =
     (let turns_left = max_turns - turn + 1 in
      (case (if turns_left \<le> 2 then score_minimax guess candidates word_length
             else score_entropy guess candidates word_length) of
         Inl e \<Rightarrow> Inl e
       | Inr base \<Rightarrow> Inr (if guess \<in> set candidates then base + 1 / 1000000 else base)))"

text \<open>
  Calling a registered function with the keyword arguments the solver passes
  (\<open>guess, candidates, word_length, turn, max_turns\<close>); all but \<open>score_hybrid\<close> ignore
  \<open>turn\<close> and \<open>max_turns\<close> through \<open>**kwargs\<close>.
\<close>

fun call_strategy ::
  "strategy_fn \<Rightarrow> bytes \<Rightarrow> bytes list \<Rightarrow> int \<Rightarrow> int \<Rightarrow> int \<Rightarrow> error + real" where
  "call_strategy score_frequency_fn guess candidates word_length turn max_turns =
     score_frequency guess candidates word_length"
| "call_strategy score_entropy_fn guess candidates word_length turn max_turns =
     score_entropy guess candidates word_length"
| "call_strategy score_expected_size_fn guess candidates word_length turn max_turns =
     score_expected_size guess candidates word_length"
| "call_strategy score_minimax_fn guess candidates word_length turn max_turns =
     score_minimax guess candidates word_length"
| "call_strategy score_hybrid_fn guess candidates word_length turn max_turns =
     score_hybrid guess candidates word_length turn max_turns"

section \<open>solver.py\<close>

record solver =
  word_length :: int
  max_turns :: int
  hard_mode :: bool
  strategy_name :: string
  strategy_fn :: strategy_fn
  initial_solutions :: "bytes list"
  initial_guesses :: "bytes list"
  candidates :: "bytes list"
  guess_pool :: "bytes list"
  history :: "(bytes \<times> int) list"
  solutions_hash :: int

text \<open>
  The module-level \<open>_first_guess_cache\<close>, passed explicitly: a dictionary from
  \<open>(strategy_name, word_length, solutions_hash)\<close> to a word.
\<close>

type_synonym first_guess_cache = "string \<times> int \<times> int \<rightharpoonup> bytes"

text \<open>
  \<open>Solver.__init__\<close>. Python's built-in \<open>hash\<close> of the tuple of solutions is a parameter.
\<close>

definition Solver ::
  "(bytes list \<Rightarrow> int) \<Rightarrow> bytes list \<Rightarrow> bytes list \<Rightarrow> string \<Rightarrow> int \<Rightarrow> int \<Rightarrow> bool \<Rightarrow>
   error + solver" where
  "Solver py_hash solutions guesses strategy wl mt hm =
     (case get_strategy strategy of
        Inl e \<Rightarrow> Inl e
      | Inr fn \<Rightarrow>
          Inr \<lparr>word_length = wl, max_turns = mt, hard_mode = hm, strategy_name = strategy,
               strategy_fn = fn, initial_solutions = solutions, initial_guesses = guesses,
               candidates = solutions, guess_pool = guesses, history = [],
               solutions_hash = py_hash solutions\<rparr>)"

definition reset :: "solver \<Rightarrow> solver" where
  "reset s = s\<lparr>candidates := initial_solutions s, guess_pool := initial_guesses s,
               history := []\<rparr>"

definition remaining_candidates :: "solver \<Rightarrow> nat" where
  "remaining_candidates s = length (candidates s)"

subsection \<open>Solver._select_guess_pool\<close>

definition select_guess_pool :: "solver \<Rightarrow> int \<Rightarrow> bytes list" where
  "select_guess_pool s turn =
     (let n = length (candidates s); full_pool_size = length (guess_pool s) in
      if n \<le> 2 then candidates s
      else if n > 300 then candidates s
      else if strategy_name s \<in> set [''entropy'', ''expected_size'', ''hybrid'', ''minimax'']
      then
        (let cost = full_pool_size * n in
         if cost \<le> 2000000 then guess_pool s else candidates s)
      else candidates s)"

subsection \<open>Solver._score_guess and Solver._score_pool\<close>

definition score_guess :: "solver \<Rightarrow> bytes \<Rightarrow> int \<Rightarrow> error + real" where
  "score_guess s guess turn =
     call_strategy (strategy_fn s) guess (candidates s) (word_length s) turn (max_turns s)"

fun score_pool_loop ::
  "solver \<Rightarrow> bytes list \<Rightarrow> int \<Rightarrow> real option \<times> bytes \<times> bool \<Rightarrow> error + bytes" where
  "score_pool_loop s [] turn (best_score, best_guess, best_is_candidate) = Inr best_guess"
| "score_pool_loop s (g # rest) turn (best_score, best_guess, best_is_candidate) =
     (case score_guess s g turn of
        Inl e \<Rightarrow> Inl e
      | Inr score \<Rightarrow>
          (let g_is_candidate = (g \<in> set (candidates s)) in
           if improves score g_is_candidate best_score best_is_candidate then
             score_pool_loop s rest turn (Some score, g, g_is_candidate)
           else score_pool_loop s rest turn (best_score, best_guess, best_is_candidate)))"

definition score_pool :: "solver \<Rightarrow> bytes list \<Rightarrow> int \<Rightarrow> error + bytes" where
  "score_pool s pool turn =
     (case pool of
        [] \<Rightarrow> Inl IndexError
      | g0 # _ \<Rightarrow> score_pool_loop s pool turn (None, g0, False))"

subsection \<open>Solver.best_guess\<close>

text \<open>
  The message of the "inconsistent state" error, as the bytes of the string literal in the
  source file: between its two halves stand the eight bytes
  \<open>C3 A2 E2 82 AC E2 80 9D\<close>.
\<close>

definition no_candidates_error :: string where
  "no_candidates_error =
     ''No candidates remaining '' @
     [CHR 0xC3, CHR 0xA2, CHR 0xE2, CHR 0x82, CHR 0xAC, CHR 0xE2, CHR 0x80, CHR 0x9D] @
     '' puzzle state is inconsistent.''"

text \<open>
  \<open>best_guess\<close> returns the word together with the cache, which it writes only after a
  successful scoring on the first turn; when it raises nothing has been mutated.
\<close>

definition best_guess ::
  "first_guess_cache \<Rightarrow> solver \<Rightarrow> int \<Rightarrow> error + bytes \<times> first_guess_cache" where
  "best_guess cache s turn =
     (let n = length (candidates s) in
      if n = 0 then Inl (ValueError no_candidates_error)
      else if n = 1 then Inr (hd (candidates s), cache)
      else if n = 2 then Inr (hd (candidates s), cache)
      else
        (let cache_key = (strategy_name s, word_length s, solutions_hash s);
             first_turn = (turn = 1 \<and> n = length (initial_solutions s))
         in
         (case (if first_turn then cache cache_key else None) of
            Some w \<Rightarrow> Inr (w, cache)
          | None \<Rightarrow>
              (let pool = select_guess_pool s turn in
               (case (if strategy_name s = ''frequency''
                      then score_frequency_batch pool (candidates s) (word_length s)
                      else score_pool s pool turn) of
                  Inl e \<Rightarrow> Inl e
                | Inr best \<Rightarrow>
                    Inr (best, if first_turn then cache(cache_key \<mapsto> best) else cache))))))"

subsection \<open>Solver.update\<close>

text \<open>
  \<open>update\<close> mutates the solver in three steps; when a filtering step raises, the earlier
  assignments stay. The result is the solver after a normal return (\<open>Inr\<close>), or the error
  with the solver as the raise left it (\<open>Inl\<close>).
\<close>

definition update :: "solver \<Rightarrow> bytes \<Rightarrow> int \<Rightarrow> error \<times> solver + solver" where
  "update s guess pattern =
     (let s1 = s\<lparr>history := history s @ [(guess, pattern)]\<rparr> in
      (case filter_candidates (candidates s1) guess pattern (word_length s1) of
         Inl e \<Rightarrow> Inl (e, s1)
       | Inr cs \<Rightarrow>
           (let s2 = s1\<lparr>candidates := cs\<rparr> in
            if hard_mode s2 then
              (case filter_candidates (guess_pool s2) guess pattern (word_length s2) of
                 Inl e \<Rightarrow> Inl (e, s2)
               | Inr gp \<Rightarrow> Inr (s2\<lparr>guess_pool := gp\<rparr>))
            else Inr s2)))"

definition state_after :: "error \<times> solver + solver \<Rightarrow> solver" where
  "state_after r = (case r of Inl (e, s) \<Rightarrow> s | Inr s \<Rightarrow> s)"

text \<open>
  A sequence of \<open>update\<close> calls on one solver: the list of the solver's states after each
  call, whether the call returned or raised.
\<close>

fun update_trace :: "solver \<Rightarrow> (bytes \<times> int) list \<Rightarrow> solver list" where
  "update_trace s [] = []"
| "update_trace s ((guess, pattern) # calls) =
     (let s1 = state_after (update s guess pattern) in s1 # update_trace s1 calls)"

subsection \<open>A solver whose guess pool is larger than its candidate set\<close>

text \<open>
  The solver \<open>Solver(solutions, guesses, "frequency", word_length=2)\<close> with four two-letter
  solutions and one more permitted guess, \<open>az\<close>, which combines the most frequent first
  letter with the most frequent second letter.
\<close>

definition frequency_example :: solver where
  "frequency_example =
     \<lparr>word_length = 2, max_turns = 6, hard_mode = False, strategy_name = ''frequency'',
      strategy_fn = score_frequency_fn,
      initial_solutions = [''ax'', ''ay'', ''bz'', ''cz''],
      initial_guesses = [''ax'', ''ay'', ''bz'', ''cz'', ''az''],
      candidates = [''ax'', ''ay'', ''bz'', ''cz''],
      guess_pool = [''ax'', ''ay'', ''bz'', ''cz'', ''az''],
      history = [], solutions_hash = 0\<rparr>"

section \<open>Duplicate-letter fixtures\<close>

text \<open>
  Claim C2. On the five duplicate-letter fixtures of the specification, \<open>compute_pattern\<close>
  returns the pattern whose tiles, position 0 first, are the listed ones: the returned
  integer is the base-3 encoding of the tiles with the most significant digit at position 0
  (\<open>tiles_to_pattern\<close>), and decoding it with \<open>pattern_to_tiles\<close> gives the tiles back.
\<close>

theorem compute_pattern_fixtures:
  "compute_pattern ''speed'' ''abide'' 5 = Inr (tiles_to_pattern [0, 0, 1, 0, 1]) \<and>
   compute_pattern ''llama'' ''world'' 5 = Inr (tiles_to_pattern [1, 0, 0, 0, 0]) \<and>
   compute_pattern ''abyss'' ''banal'' 5 = Inr (tiles_to_pattern [1, 1, 0, 0, 0]) \<and>
   compute_pattern ''proof'' ''afoot'' 5 = Inr (tiles_to_pattern [0, 0, 2, 2, 1]) \<and>
   compute_pattern ''eeeee'' ''geese'' 5 = Inr (tiles_to_pattern [0, 2, 2, 0, 2]) \<and>
   tiles_to_pattern [0, 0, 1, 0, 1] = 0 * 81 + 0 * 27 + 1 * 9 + 0 * 3 + 1 \<and>
   tiles_to_pattern [1, 0, 0, 0, 0] = 1 * 81 + 0 * 27 + 0 * 9 + 0 * 3 + 0 \<and>
   tiles_to_pattern [1, 1, 0, 0, 0] = 1 * 81 + 1 * 27 + 0 * 9 + 0 * 3 + 0 \<and>
   tiles_to_pattern [0, 0, 2, 2, 1] = 0 * 81 + 0 * 27 + 2 * 9 + 2 * 3 + 1 \<and>
   tiles_to_pattern [0, 2, 2, 0, 2] = 0 * 81 + 2 * 27 + 2 * 9 + 0 * 3 + 2 \<and>
   pattern_to_tiles (tiles_to_pattern [0, 0, 1, 0, 1]) 5 = [0, 0, 1, 0, 1] \<and>
   pattern_to_tiles (tiles_to_pattern [1, 0, 0, 0, 0]) 5 = [1, 0, 0, 0, 0] \<and>
   pattern_to_tiles (tiles_to_pattern [1, 1, 0, 0, 0]) 5 = [1, 1, 0, 0, 0] \<and>
   pattern_to_tiles (tiles_to_pattern [0, 0, 2, 2, 1]) 5 = [0, 0, 2, 2, 1] \<and>
   pattern_to_tiles (tiles_to_pattern [0, 2, 2, 0, 2]) 5 = [0, 2, 2, 0, 2]"
  by code_simp

section \<open>Well-formed words never raise\<close>

lemma byte_at_lowercase:
  assumes "lowercase w" "i < length w"
  shows "\<exists>c. byte_at w i = Inr c \<and> 97 \<le> c \<and> c \<le> 122"
  using assms by (auto simp: byte_at_def lowercase_def list_all_length)

lemma list_index_letter:
  assumes "97 \<le> c" "c \<le> 122"
  shows "list_index 26 (c - ORD_A) = Inr (nat (c - 97))"
  using assms by (auto simp: list_index_def ORD_A_def)

lemma count_letters_ok:
  assumes "lowercase secret" "\<forall>i\<in>set idxs. i < length secret" "length counts = 26"
  shows "\<exists>counts'. count_letters secret idxs counts = Inr counts' \<and> length counts' = 26"
  using assms
proof (induction idxs arbitrary: counts)
  case Nil
  then show ?case by simp
next
  case (Cons i idxs)
  from Cons.prems obtain c where c: "byte_at secret i = Inr c" "97 \<le> c" "c \<le> 122"
    using byte_at_lowercase [of secret i] by auto
  have k: "list_index (length counts) (c - ORD_A) = Inr (nat (c - 97))"
    using c Cons.prems list_index_letter by simp
  have "\<exists>counts'. count_letters secret idxs (counts[nat (c - 97) := counts ! nat (c - 97) + 1])
           = Inr counts' \<and> length counts' = 26"
    using Cons.prems by (intro Cons.IH) auto
  then show ?case using c k by simp
qed

lemma mark_greens_ok:
  assumes "lowercase guess"
    "\<forall>i\<in>set idxs. i < length guess \<and> i < length secret \<and> i < length result"
    "length counts = 26"
  shows "\<exists>result' counts'. mark_greens guess secret idxs (result, counts) = Inr (result', counts')
           \<and> length result' = length result \<and> length counts' = 26"
  using assms
proof (induction idxs arbitrary: result counts)
  case Nil
  then show ?case by simp
next
  case (Cons i idxs)
  from Cons.prems obtain gc where gc: "byte_at guess i = Inr gc" "97 \<le> gc" "gc \<le> 122"
    using byte_at_lowercase [of guess i] by auto
  from Cons.prems obtain sc where sc: "byte_at secret i = Inr sc"
    by (auto simp: byte_at_def)
  have k: "list_index (length counts) (gc - ORD_A) = Inr (nat (gc - 97))"
    using gc Cons.prems list_index_letter by simp
  have i: "i < length result" using Cons.prems by simp
  show ?case
  proof (cases "gc = sc")
    case True
    have "\<exists>result' counts'. mark_greens guess secret idxs
            (result[i := 2], counts[nat (gc - 97) := counts ! nat (gc - 97) - 1])
              = Inr (result', counts')
           \<and> length result' = length (result[i := 2]) \<and> length counts' = 26"
      using Cons.prems by (intro Cons.IH) auto
    then show ?thesis using gc sc k i True by simp
  next
    case False
    have "\<exists>result' counts'. mark_greens guess secret idxs (result, counts) = Inr (result', counts')
           \<and> length result' = length result \<and> length counts' = 26"
      using Cons.prems by (intro Cons.IH) auto
    then show ?thesis using gc sc False by simp
  qed
qed

lemma mark_yellows_ok:
  assumes "lowercase guess" "\<forall>i\<in>set idxs. i < length guess \<and> i < length result"
    "length counts = 26"
  shows "\<exists>result' counts'. mark_yellows guess idxs (result, counts) = Inr (result', counts')
           \<and> length result' = length result \<and> length counts' = 26"
  using assms
proof (induction idxs arbitrary: result counts)
  case Nil
  then show ?case by simp
next
  case (Cons i idxs)
  from Cons.prems obtain gc where gc: "byte_at guess i = Inr gc" "97 \<le> gc" "gc \<le> 122"
    using byte_at_lowercase [of guess i] by auto
  have k: "list_index (length counts) (gc - ORD_A) = Inr (nat (gc - 97))"
    using gc Cons.prems list_index_letter by simp
  have i: "i < length result" using Cons.prems by simp
  have A: "\<exists>result' counts'. mark_yellows guess idxs
            (result[i := 1], counts[nat (gc - 97) := counts ! nat (gc - 97) - 1])
              = Inr (result', counts')
           \<and> length result' = length (result[i := 1]) \<and> length counts' = 26"
    using Cons.prems by (intro Cons.IH) auto
  have B: "\<exists>result' counts'. mark_yellows guess idxs (result, counts) = Inr (result', counts')
           \<and> length result' = length result \<and> length counts' = 26"
    using Cons.prems by (intro Cons.IH) auto
  show ?case using A B gc k i by simp
qed

lemma compute_pattern_ok:
  assumes "is_word wl guess" "is_word wl secret"
  shows "\<exists>p. compute_pattern guess secret wl = Inr p"
proof -
  have len: "length guess = nat wl" "length secret = nat wl"
    and low: "lowercase guess" "lowercase secret"
    using assms by (auto simp: is_word_def)
  obtain counts where c0: "count_letters secret (py_range wl) (replicate 26 0) = Inr counts"
    "length counts = 26"
    using count_letters_ok [of secret "py_range wl" "replicate 26 0"] low len
    by (auto simp: py_range_def)
  obtain result counts1 where c1: "mark_greens guess secret (py_range wl)
       (replicate (nat wl) 0, counts) = Inr (result, counts1)"
    "length result = nat wl" "length counts1 = 26"
    using mark_greens_ok [of guess "py_range wl" secret "replicate (nat wl) 0" counts]
      low len c0 by (auto simp: py_range_def)
  obtain result2 counts2 where c2: "mark_yellows guess (py_range wl) (result, counts1)
       = Inr (result2, counts2)"
    using mark_yellows_ok [of guess "py_range wl" result counts1] low len c1
    by (auto simp: py_range_def)
  show ?thesis using c0 c1 c2 by (simp add: compute_pattern_def)
qed

lemma all_words_Cons: "all_words wl (w # ws) = (is_word wl w \<and> all_words wl ws)"
  by (simp add: all_words_def)

lemma all_words_mem: "all_words wl ws \<Longrightarrow> w \<in> set ws \<Longrightarrow> is_word wl w"
  by (simp add: all_words_def list_all_iff)

subsection \<open>Each loop body is the body of compute_pattern\<close>

lemma compute_pattern_batch_loop_Cons:
  "compute_pattern_batch_loop guess (secret # rest) wl patterns =
     (case compute_pattern guess secret wl of
        Inl e \<Rightarrow> Inl e
      | Inr p \<Rightarrow> compute_pattern_batch_loop guess rest wl (patterns @ [p]))"
  by (simp add: compute_pattern_def split: sum.splits prod.splits)

lemma bucket_sizes_loop_Cons:
  "bucket_sizes_loop guess (secret # rest) wl buckets =
     (case compute_pattern guess secret wl of
        Inl e \<Rightarrow> Inl e
      | Inr p \<Rightarrow>
          bucket_sizes_loop guess rest wl
            (AList.update p ((case map_of buckets p of None \<Rightarrow> 0 | Some c \<Rightarrow> c) + 1) buckets))"
  by (simp add: compute_pattern_def split: sum.splits prod.splits)

lemma bucket_by_pattern_loop_Cons:
  "bucket_by_pattern_loop guess (secret # rest) wl buckets =
     (case compute_pattern guess secret wl of
        Inl e \<Rightarrow> Inl e
      | Inr p \<Rightarrow>
          bucket_by_pattern_loop guess rest wl
            (case map_of buckets p of
               Some ws \<Rightarrow> AList.update p (ws @ [secret]) buckets
             | None \<Rightarrow> AList.update p [secret] buckets))"
  by (simp add: compute_pattern_def split: sum.splits prod.splits)

lemma filter_candidates_loop_Cons:
  "filter_candidates_loop (secret # rest) guess pattern wl result_list =
     (case compute_pattern guess secret wl of
        Inl e \<Rightarrow> Inl e
      | Inr p \<Rightarrow>
          if p = pattern then filter_candidates_loop rest guess pattern wl (result_list @ [secret])
          else filter_candidates_loop rest guess pattern wl result_list)"
  by (simp add: compute_pattern_def split: sum.splits prod.splits)

lemma compute_pattern_batch_loop_ok:
  assumes "is_word wl guess" "all_words wl S"
  shows "\<exists>ps. compute_pattern_batch_loop guess S wl acc = Inr (acc @ ps) \<and>
           list_all2 (\<lambda>s p. compute_pattern guess s wl = Inr p) S ps"
  using assms(2)
proof (induction S arbitrary: acc)
  case Nil
  then show ?case by simp
next
  case (Cons s S)
  then have s: "is_word wl s" and S: "all_words wl S"
    by (simp_all add: all_words_Cons)
  obtain p where p: "compute_pattern guess s wl = Inr p"
    using compute_pattern_ok [OF assms(1) s] by blast
  obtain ps where ps: "compute_pattern_batch_loop guess S wl (acc @ [p]) = Inr ((acc @ [p]) @ ps)"
    "list_all2 (\<lambda>s p. compute_pattern guess s wl = Inr p) S ps"
    using Cons.IH [OF S, of "acc @ [p]"] by blast
  have "compute_pattern_batch_loop guess (s # S) wl acc = Inr (acc @ (p # ps))"
    using p ps(1) by (simp add: compute_pattern_batch_loop_Cons del: compute_pattern_batch_loop.simps)
  moreover have "list_all2 (\<lambda>s p. compute_pattern guess s wl = Inr p) (s # S) (p # ps)"
    using p ps(2) by simp
  ultimately show ?case by blast
qed

lemma filter_candidates_loop_ok:
  assumes "is_word wl guess" "all_words wl S"
  shows "filter_candidates_loop S guess pattern wl acc =
           Inr (acc @ filter (\<lambda>s. compute_pattern guess s wl = Inr pattern) S)"
  using assms(2)
proof (induction S arbitrary: acc)
  case Nil
  then show ?case by simp
next
  case (Cons s S)
  then have s: "is_word wl s" and S: "all_words wl S"
    by (simp_all add: all_words_Cons)
  obtain p where p: "compute_pattern guess s wl = Inr p"
    using compute_pattern_ok [OF assms(1) s] by blast
  show ?case
    using p Cons.IH [OF S]
    by (simp add: filter_candidates_loop_Cons del: filter_candidates_loop.simps)
qed

lemma filter_candidates_eq:
  assumes "is_word wl guess" "all_words wl S"
  shows "filter_candidates S guess pattern wl =
           Inr (filter (\<lambda>s. compute_pattern guess s wl = Inr pattern) S)"
  using filter_candidates_loop_ok [OF assms, of pattern "[]"]
  by (simp add: filter_candidates_def)

section \<open>The batch computation agrees with compute_pattern\<close>

text \<open>
  Claim C3. For a guess and a list of secrets that are all words of length \<open>wl\<close> over the
  lowercase letters, \<open>compute_pattern_batch\<close> returns (it does not raise) a list that
  corresponds to the secrets element by element and in the same order: its \<open>k\<close>-th entry is
  what \<open>compute_pattern\<close> returns for the guess and the \<open>k\<close>-th secret.
\<close>

theorem compute_pattern_batch_elementwise:
  assumes "is_word wl guess" "all_words wl S"
  shows "\<exists>ps. compute_pattern_batch guess S wl = Inr ps \<and>
           list_all2 (\<lambda>s p. compute_pattern guess s wl = Inr p) S ps"
  using compute_pattern_batch_loop_ok [OF assms, of "[]"]
  by (simp add: compute_pattern_batch_def)

theorem compute_pattern_batch_elementwise_witness:
  "is_word 5 ''crane'' \<and> all_words 5 [''slate'', ''crane'', ''trace''] \<and>
   (\<exists>ps. compute_pattern_batch ''crane'' [''slate'', ''crane'', ''trace''] 5 = Inr ps \<and>
      list_all2 (\<lambda>s p. compute_pattern ''crane'' s 5 = Inr p)
        [''slate'', ''crane'', ''trace''] ps)"
proof -
  have g: "is_word 5 ''crane''"
    by (simp add: is_word_def lowercase_def)
  have S: "all_words 5 [''slate'', ''crane'', ''trace'']"
    by (simp add: all_words_def is_word_def lowercase_def)
  show ?thesis
    using g S compute_pattern_batch_elementwise [OF g S] by blast
qed

section \<open>Filtering keeps exactly the consistent candidates\<close>

text \<open>
  Claim C4. For a guess and a candidate list of words of length \<open>wl\<close> over the lowercase
  letters: every member \<open>secret\<close> of the list is a member of the list filtered by the
  pattern \<open>compute_pattern\<close> gives for the guess against \<open>secret\<close>; and for every pattern,
  \<open>filter_candidates\<close> returns exactly the members whose computed pattern against the guess
  is that pattern, in their original relative order (the \<open>filter\<close> of the list).
\<close>

theorem filter_candidates_keeps_secret:
  assumes "is_word wl guess" "all_words wl S"
  shows "(\<forall>secret. secret \<in> set S \<longrightarrow>
            (\<exists>p kept. compute_pattern guess secret wl = Inr p \<and>
               filter_candidates S guess p wl = Inr kept \<and> secret \<in> set kept)) \<and>
         (\<forall>pattern. filter_candidates S guess pattern wl =
            Inr (filter (\<lambda>s. compute_pattern guess s wl = Inr pattern) S))"
proof (intro conjI allI impI)
  fix secret assume mem: "secret \<in> set S"
  then have "is_word wl secret" using assms(2) all_words_mem by blast
  then obtain p where p: "compute_pattern guess secret wl = Inr p"
    using compute_pattern_ok [OF assms(1)] by blast
  show "\<exists>p kept. compute_pattern guess secret wl = Inr p \<and>
               filter_candidates S guess p wl = Inr kept \<and> secret \<in> set kept"
    using p mem filter_candidates_eq [OF assms, of p] by auto
next
  fix pattern
  show "filter_candidates S guess pattern wl =
            Inr (filter (\<lambda>s. compute_pattern guess s wl = Inr pattern) S)"
    by (rule filter_candidates_eq [OF assms])
qed

theorem filter_candidates_keeps_secret_witness:
  "is_word 5 ''crane'' \<and> all_words 5 [''slate'', ''crane'', ''trace''] \<and>
   (\<exists>p kept. compute_pattern ''crane'' ''trace'' 5 = Inr p \<and>
      filter_candidates [''slate'', ''crane'', ''trace''] ''crane'' p 5 = Inr kept \<and>
      ''trace'' \<in> set kept)"
proof -
  have g: "is_word 5 ''crane''"
    by (simp add: is_word_def lowercase_def)
  have S: "all_words 5 [''slate'', ''crane'', ''trace'']"
    by (simp add: all_words_def is_word_def lowercase_def)
  have "''trace'' \<in> set [''slate'', ''crane'', ''trace'']"
    by simp
  then show ?thesis
    using g S filter_candidates_keeps_secret [OF g S] by blast
qed

section \<open>Buckets\<close>

subsection \<open>Dictionaries as association lists\<close>

lemma sum_list_update_incr:
  "sum_list (map snd (AList.update k ((case map_of al k of None \<Rightarrow> 0 | Some c \<Rightarrow> c) + 1) al))
     = sum_list (map snd al) + (1::int)"
  by (induction al) auto

lemma values_update_subset:
  "set (map snd (AList.update k v al)) \<subseteq> insert v (set (map snd al))"
  by (induction al) auto

lemma map_of_values_ge:
  assumes "\<forall>v\<in>set (map snd al). (1::int) \<le> v" "map_of al k = Some c"
  shows "1 \<le> c"
proof -
  have "(k, c) \<in> set al" using assms(2) by (rule map_of_SomeD)
  then have "c \<in> set (map snd al)" by force
  then show ?thesis using assms(1) by blast
qed

lemma bucket_sizes_loop_ok:
  assumes "is_word wl guess" "all_words wl S"
    "distinct (map fst acc)" "\<forall>v\<in>set (map snd acc). 1 \<le> v"
  shows "\<exists>b. bucket_sizes_loop guess S wl acc = Inr b \<and>
           sum_list (map snd b) = sum_list (map snd acc) + int (length S) \<and>
           distinct (map fst b) \<and> (\<forall>v\<in>set (map snd b). 1 \<le> v) \<and>
           fst ` set b = fst ` set acc \<union> {p. \<exists>s\<in>set S. compute_pattern guess s wl = Inr p}"
  using assms(2-)
proof (induction S arbitrary: acc)
  case Nil
  then show ?case by simp
next
  case (Cons s S)
  then have s: "is_word wl s" and S: "all_words wl S"
    by (simp_all add: all_words_Cons)
  obtain p where p: "compute_pattern guess s wl = Inr p"
    using compute_pattern_ok [OF assms(1) s] by blast
  define v where "v = (case map_of acc p of None \<Rightarrow> 0 | Some c \<Rightarrow> c) + 1"
  define acc1 where "acc1 = AList.update p v acc"
  have v: "1 \<le> v"
  proof (cases "map_of acc p")
    case None
    then show ?thesis by (simp add: v_def)
  next
    case (Some c)
    then have "1 \<le> c" using map_of_values_ge [OF Cons.prems(3)] by blast
    then show ?thesis using Some by (simp add: v_def)
  qed
  have d1: "distinct (map fst acc1)"
    using Cons.prems(2) by (simp add: acc1_def distinct_update)
  have v1: "\<forall>v\<in>set (map snd acc1). 1 \<le> v"
    using values_update_subset [of p v acc] v Cons.prems(3) unfolding acc1_def by blast
  have s1: "sum_list (map snd acc1) = sum_list (map snd acc) + 1"
    unfolding acc1_def v_def by (rule sum_list_update_incr)
  have k1: "fst ` set acc1 = {p} \<union> fst ` set acc"
    unfolding acc1_def by (rule dom_update)
  obtain b where b: "bucket_sizes_loop guess S wl acc1 = Inr b"
    "sum_list (map snd b) = sum_list (map snd acc1) + int (length S)"
    "distinct (map fst b)" "\<forall>v\<in>set (map snd b). 1 \<le> v"
    "fst ` set b = fst ` set acc1 \<union> {p. \<exists>s\<in>set S. compute_pattern guess s wl = Inr p}"
    using Cons.IH [OF S d1 v1] by blast
  have run: "bucket_sizes_loop guess (s # S) wl acc = Inr b"
    using p b(1)
    by (simp add: bucket_sizes_loop_Cons acc1_def v_def del: bucket_sizes_loop.simps)
  have keys: "fst ` set b =
      fst ` set acc \<union> {q. \<exists>t\<in>set (s # S). compute_pattern guess t wl = Inr q}"
    using b(5) k1 p by auto
  show ?case
    using run b(2,3,4) s1 keys by auto
qed

lemma bucket_sizes_ok:
  assumes "is_word wl guess" "all_words wl S"
  shows "\<exists>b. bucket_sizes guess S wl = Inr b \<and>
           sum_list (dict_values b) = int (length S) \<and>
           distinct (map fst b) \<and> (\<forall>v\<in>set (dict_values b). 1 \<le> v) \<and>
           fst ` set b = {p. \<exists>s\<in>set S. compute_pattern guess s wl = Inr p}"
  using bucket_sizes_loop_ok [OF assms, of "[]"]
  by (simp add: bucket_sizes_def dict_values_def)

lemma bucket_by_pattern_loop_ok:
  assumes "is_word wl guess" "all_words wl S" "distinct (map fst acc)"
  shows "\<exists>b. bucket_by_pattern_loop guess S wl acc = Inr b \<and> distinct (map fst b) \<and>
           (\<forall>p. map_of b p =
              (case map_of acc p of
                 Some ws \<Rightarrow> Some (ws @ filter (\<lambda>s. compute_pattern guess s wl = Inr p) S)
               | None \<Rightarrow>
                   if filter (\<lambda>s. compute_pattern guess s wl = Inr p) S = [] then None
                   else Some (filter (\<lambda>s. compute_pattern guess s wl = Inr p) S)))"
  using assms(2-)
proof (induction S arbitrary: acc)
  case Nil
  then show ?case by (auto split: option.splits)
next
  case (Cons s S)
  then have s: "is_word wl s" and S: "all_words wl S"
    by (simp_all add: all_words_Cons)
  obtain q where q: "compute_pattern guess s wl = Inr q"
    using compute_pattern_ok [OF assms(1) s] by blast
  define acc1 where "acc1 =
    (case map_of acc q of
       Some ws \<Rightarrow> AList.update q (ws @ [s]) acc
     | None \<Rightarrow> AList.update q [s] acc)"
  have d1: "distinct (map fst acc1)"
    using Cons.prems(2) by (simp add: acc1_def distinct_update split: option.splits)
  have m1: "map_of acc1 = (map_of acc)(q \<mapsto> (case map_of acc q of Some ws \<Rightarrow> ws @ [s] | None \<Rightarrow> [s]))"
    by (simp add: acc1_def update_conv' split: option.splits)
  obtain b where b: "bucket_by_pattern_loop guess S wl acc1 = Inr b" "distinct (map fst b)"
    "\<And>p. map_of b p =
              (case map_of acc1 p of
                 Some ws \<Rightarrow> Some (ws @ filter (\<lambda>s. compute_pattern guess s wl = Inr p) S)
               | None \<Rightarrow>
                   if filter (\<lambda>s. compute_pattern guess s wl = Inr p) S = [] then None
                   else Some (filter (\<lambda>s. compute_pattern guess s wl = Inr p) S))"
    using Cons.IH [OF S d1] by blast
  have run: "bucket_by_pattern_loop guess (s # S) wl acc = Inr b"
    using q b(1)
    by (simp add: bucket_by_pattern_loop_Cons acc1_def del: bucket_by_pattern_loop.simps)
  have "map_of b p =
              (case map_of acc p of
                 Some ws \<Rightarrow> Some (ws @ filter (\<lambda>t. compute_pattern guess t wl = Inr p) (s # S))
               | None \<Rightarrow>
                   if filter (\<lambda>t. compute_pattern guess t wl = Inr p) (s # S) = [] then None
                   else Some (filter (\<lambda>t. compute_pattern guess t wl = Inr p) (s # S)))" for p
    using q by (cases "p = q") (auto simp: b(3) m1 split: option.splits)
  then show ?case using run b(2) by blast
qed

lemma bucket_by_pattern_ok:
  assumes "is_word wl guess" "all_words wl S"
  shows "\<exists>b. bucket_by_pattern guess S wl = Inr b \<and> distinct (map fst b) \<and>
           (\<forall>p. map_of b p =
              (if filter (\<lambda>s. compute_pattern guess s wl = Inr p) S = [] then None
               else Some (filter (\<lambda>s. compute_pattern guess s wl = Inr p) S)))"
  using bucket_by_pattern_loop_ok [OF assms, of "[]"]
  by (simp add: bucket_by_pattern_def)

text \<open>
  Claim C5. For a guess and a candidate list of words of length \<open>wl\<close>, \<open>bucket_sizes\<close>
  returns a dictionary whose values sum to the number of candidates.
\<close>

theorem bucket_sizes_sum:
  assumes "is_word wl guess" "all_words wl S"
  shows "\<exists>b. bucket_sizes guess S wl = Inr b \<and> sum_list (dict_values b) = int (length S)"
  using bucket_sizes_ok [OF assms] by blast

theorem bucket_sizes_sum_witness:
  "is_word 5 ''crane'' \<and> all_words 5 [''slate'', ''crane'', ''trace''] \<and>
   (\<exists>b. bucket_sizes ''crane'' [''slate'', ''crane'', ''trace''] 5 = Inr b \<and>
      sum_list (dict_values b) = int (length [''slate'', ''crane'', ''trace'']))"
proof -
  have g: "is_word 5 ''crane''"
    by (simp add: is_word_def lowercase_def)
  have S: "all_words 5 [''slate'', ''crane'', ''trace'']"
    by (simp add: all_words_def is_word_def lowercase_def)
  show ?thesis
    using g S bucket_sizes_sum [OF g S] by blast
qed

text \<open>
  Claim C10. For a guess and a candidate list of words of length \<open>wl\<close>, \<open>bucket_by_pattern\<close>
  returns a dictionary (with distinct keys) such that for every pattern \<open>p\<close>,
  \<open>filter_candidates\<close> with \<open>p\<close> returns the bucket stored under \<open>p\<close>, and the empty list
  when \<open>p\<close> is not a key. Each bucket lists, in their order in the candidate list, the
  candidates whose pattern is its key; so every candidate is in the bucket of exactly one
  key.
\<close>

theorem filter_candidates_is_bucket:
  assumes "is_word wl guess" "all_words wl S"
  shows "\<exists>b. bucket_by_pattern guess S wl = Inr b \<and> distinct (map fst b) \<and>
           (\<forall>p. filter_candidates S guess p wl =
              Inr (case map_of b p of Some ws \<Rightarrow> ws | None \<Rightarrow> [])) \<and>
           (\<forall>p ws. map_of b p = Some ws \<longrightarrow>
              ws = filter (\<lambda>s. compute_pattern guess s wl = Inr p) S) \<and>
           (\<forall>s. s \<in> set S \<longrightarrow> (\<exists>!p. \<exists>ws. map_of b p = Some ws \<and> s \<in> set ws))"
proof -
  obtain b where b: "bucket_by_pattern guess S wl = Inr b" "distinct (map fst b)"
    "\<And>p. map_of b p =
              (if filter (\<lambda>s. compute_pattern guess s wl = Inr p) S = [] then None
               else Some (filter (\<lambda>s. compute_pattern guess s wl = Inr p) S))"
    using bucket_by_pattern_ok [OF assms] by blast
  have A: "filter_candidates S guess p wl = Inr (case map_of b p of Some ws \<Rightarrow> ws | None \<Rightarrow> [])"
    for p
    by (simp add: filter_candidates_eq [OF assms] b(3))
  have B: "ws = filter (\<lambda>s. compute_pattern guess s wl = Inr p) S" if "map_of b p = Some ws"
    for p ws
    using that by (simp add: b(3) split: if_splits)
  have C: "\<exists>!p. \<exists>ws. map_of b p = Some ws \<and> s \<in> set ws" if "s \<in> set S" for s
  proof -
    have "is_word wl s" using that assms(2) all_words_mem by blast
    then obtain q where q: "compute_pattern guess s wl = Inr q"
      using compute_pattern_ok [OF assms(1)] by blast
    have "s \<in> set (filter (\<lambda>t. compute_pattern guess t wl = Inr q) S)"
      using that q by simp
    then have ex: "\<exists>ws. map_of b q = Some ws \<and> s \<in> set ws"
      by (auto simp: b(3) simp del: set_filter)
    have uniq: "p = q" if "\<exists>ws. map_of b p = Some ws \<and> s \<in> set ws" for p
      using that q B by fastforce
    show ?thesis using ex uniq by blast
  qed
  show ?thesis using b(1,2) A B C by blast
qed

theorem filter_candidates_is_bucket_witness:
  "is_word 5 ''crane'' \<and> all_words 5 [''slate'', ''crane'', ''trace''] \<and>
   (\<exists>b. bucket_by_pattern ''crane'' [''slate'', ''crane'', ''trace''] 5 = Inr b \<and>
      filter_candidates [''slate'', ''crane'', ''trace''] ''crane'' 242 5 =
        Inr (case map_of b 242 of Some ws \<Rightarrow> ws | None \<Rightarrow> []))"
proof -
  have g: "is_word 5 ''crane''"
    by (simp add: is_word_def lowercase_def)
  have S: "all_words 5 [''slate'', ''crane'', ''trace'']"
    by (simp add: all_words_def is_word_def lowercase_def)
  show ?thesis
    using g S filter_candidates_is_bucket [OF g S] by blast
qed

section \<open>Solver.update\<close>

lemma filter_candidates_loop_length:
  "filter_candidates_loop S guess pattern wl acc = Inr out \<Longrightarrow>
     length out \<le> length acc + length S"
proof (induction S arbitrary: acc)
  case Nil
  then show ?case by simp
next
  case (Cons s S)
  show ?case
  proof (cases "compute_pattern guess s wl")
    case (Inl e)
    then show ?thesis
      using Cons.prems
      by (simp add: filter_candidates_loop_Cons del: filter_candidates_loop.simps)
  next
    case (Inr p)
    show ?thesis
    proof (cases "p = pattern")
      case True
      then have "filter_candidates_loop S guess pattern wl (acc @ [s]) = Inr out"
        using Cons.prems Inr
        by (simp add: filter_candidates_loop_Cons del: filter_candidates_loop.simps)
      from Cons.IH [OF this] show ?thesis by simp
    next
      case False
      then have "filter_candidates_loop S guess pattern wl acc = Inr out"
        using Cons.prems Inr
        by (simp add: filter_candidates_loop_Cons del: filter_candidates_loop.simps)
      from Cons.IH [OF this] show ?thesis by simp
    qed
  qed
qed

lemma filter_candidates_length:
  "filter_candidates S guess pattern wl = Inr out \<Longrightarrow> length out \<le> length S"
  using filter_candidates_loop_length [of S guess pattern wl "[]" out]
  by (simp add: filter_candidates_def)

lemma update_hard_mode:
  "hard_mode (state_after (update s guess pattern)) = hard_mode s"
  by (simp add: update_def state_after_def Let_def split: sum.splits)

lemma update_pool_length:
  "length (guess_pool (state_after (update s guess pattern))) \<le> length (guess_pool s)"
  by (auto simp: update_def state_after_def Let_def split: sum.splits
      dest: filter_candidates_length)

text \<open>
  On well-formed words \<open>update\<close> returns, and what it stores are the order-preserving
  filters of the candidate set and, in hard mode, of the guess pool.
\<close>

lemma update_returns:
  assumes "is_word (word_length s) guess" "all_words (word_length s) (candidates s)"
    "all_words (word_length s) (guess_pool s)"
  shows "update s guess pattern =
           Inr (s\<lparr>history := history s @ [(guess, pattern)],
                  candidates :=
                    filter (\<lambda>w. compute_pattern guess w (word_length s) = Inr pattern)
                      (candidates s),
                  guess_pool :=
                    if hard_mode s
                    then filter (\<lambda>w. compute_pattern guess w (word_length s) = Inr pattern)
                           (guess_pool s)
                    else guess_pool s\<rparr>)"
  using filter_candidates_eq [OF assms(1,2), of pattern]
    filter_candidates_eq [OF assms(1,3), of pattern]
  by (simp add: update_def Let_def)

lemma update_trace_length: "length (update_trace s calls) = length calls"
  by (induction s calls rule: update_trace.induct) (simp_all add: Let_def)

text \<open>
  Claim C8. For a solver in hard mode and any sequence of \<open>update\<close> calls on it, the guess
  pool after each call is never longer than before that call (and the solver is still in
  hard mode, so this holds call after call). The states are those of \<open>update_trace\<close>, which
  follows the solver through calls that return and calls that raise alike.
\<close>

theorem hard_mode_pool_never_grows:
  assumes "hard_mode s"
  shows "\<forall>k<length calls.
           length (guess_pool ((s # update_trace s calls) ! Suc k))
             \<le> length (guess_pool ((s # update_trace s calls) ! k)) \<and>
           hard_mode ((s # update_trace s calls) ! Suc k)"
  using assms
proof (induction calls arbitrary: s)
  case Nil
  then show ?case by simp
next
  case (Cons c calls)
  obtain guess pattern where c: "c = (guess, pattern)" by (cases c)
  define s1 where "s1 = state_after (update s guess pattern)"
  have tr: "update_trace s (c # calls) = s1 # update_trace s1 calls"
    by (simp add: c s1_def Let_def)
  have h1: "hard_mode s1"
    using Cons.prems by (simp add: s1_def update_hard_mode)
  have step: "length (guess_pool s1) \<le> length (guess_pool s)"
    unfolding s1_def by (rule update_pool_length)
  show ?case
  proof (intro allI impI)
    fix k assume k: "k < length (c # calls)"
    show "length (guess_pool ((s # update_trace s (c # calls)) ! Suc k))
             \<le> length (guess_pool ((s # update_trace s (c # calls)) ! k)) \<and>
           hard_mode ((s # update_trace s (c # calls)) ! Suc k)"
    proof (cases k)
      case 0
      then show ?thesis using step h1 by (simp add: tr)
    next
      case (Suc j)
      then have "j < length calls" using k by simp
      then show ?thesis using Cons.IH [OF h1] Suc by (simp add: tr)
    qed
  qed
qed

theorem hard_mode_pool_never_grows_witness:
  "\<exists>s. Solver (\<lambda>ws. 0) [''crane'', ''crate'', ''slate'', ''trace'', ''world'']
          [''crane'', ''crate'', ''slate'', ''trace'', ''world''] ''frequency'' 5 6 True = Inr s \<and>
        hard_mode s \<and>
        length (guess_pool ((s # update_trace s [(''crane'', 236), (''crate'', 242)]) ! 2))
          \<le> length (guess_pool ((s # update_trace s [(''crane'', 236), (''crate'', 242)]) ! 1))"
proof -
  obtain s where s: "Solver (\<lambda>ws. 0) [''crane'', ''crate'', ''slate'', ''trace'', ''world'']
          [''crane'', ''crate'', ''slate'', ''trace'', ''world''] ''frequency'' 5 6 True = Inr s"
    by (simp add: Solver_def get_strategy_def STRATEGIES_def)
  then have h: "hard_mode s"
    by (auto simp: Solver_def get_strategy_def STRATEGIES_def)
  have "(1::nat) < length [(''crane'', 236::int), (''crate'', 242)]" by simp
  then have "length (guess_pool ((s # update_trace s [(''crane'', 236), (''crate'', 242)]) ! Suc 1))
          \<le> length (guess_pool ((s # update_trace s [(''crane'', 236), (''crate'', 242)]) ! 1))"
    using hard_mode_pool_never_grows [OF h, of "[(''crane'', 236), (''crate'', 242)]"] by blast
  then show ?thesis using s h by (simp add: numeral_2_eq_2)
qed

text \<open>
  Claim C9. For a solver not in hard mode, a call of \<open>update\<close> leaves the guess pool as it
  was and appends exactly one entry, the pair of the guess and the pattern, to the history;
  the solver after the call differs from the solver before it in the history and the
  candidate set only.
\<close>

theorem update_keeps_pool:
  assumes "\<not> hard_mode s"
  shows "guess_pool (state_after (update s guess pattern)) = guess_pool s \<and>
         history (state_after (update s guess pattern)) = history s @ [(guess, pattern)] \<and>
         state_after (update s guess pattern) =
           s\<lparr>history := history s @ [(guess, pattern)],
             candidates := candidates (state_after (update s guess pattern))\<rparr>"
  using assms by (simp add: update_def state_after_def Let_def split: sum.splits)

theorem update_keeps_pool_witness:
  "\<exists>s. Solver (\<lambda>ws. 0) [''crane'', ''crate'', ''slate'', ''trace'', ''world'']
          [''crane'', ''crate'', ''slate'', ''trace'', ''world''] ''frequency'' 5 6 False = Inr s \<and>
        \<not> hard_mode s \<and>
        guess_pool (state_after (update s ''crane'' 236)) = guess_pool s \<and>
        history (state_after (update s ''crane'' 236)) = history s @ [(''crane'', 236)]"
proof -
  obtain s where s: "Solver (\<lambda>ws. 0) [''crane'', ''crate'', ''slate'', ''trace'', ''world'']
          [''crane'', ''crate'', ''slate'', ''trace'', ''world''] ''frequency'' 5 6 False = Inr s"
    by (simp add: Solver_def get_strategy_def STRATEGIES_def)
  then have h: "\<not> hard_mode s"
    by (auto simp: Solver_def get_strategy_def STRATEGIES_def)
  show ?thesis using s h update_keeps_pool [OF h, of "''crane''" 236] by blast
qed

section \<open>Scoring well-formed words never raises\<close>









lemma entropy_loop_ok:
  assumes "\<forall>v\<in>set vs. 1 \<le> v" "n \<noteq> 0"
  shows "entropy_loop vs n entropy =
           Inr (entropy - sum_list (map (\<lambda>v. (real_of_int v / real n) * log 2 (real_of_int v / real n)) vs))"
  using assms(1)
proof (induction vs arbitrary: entropy)
  case Nil
  then show ?case by simp
next
  case (Cons v vs)
  define p where "p = real_of_int v / real n"
  have "0 < real_of_int v" "0 < real n"
    using Cons.prems assms(2) by simp_all
  then have "0 < p"
    unfolding p_def by (rule divide_pos_pos)
  then have pos: "\<not> p \<le> 0"
    by simp
  have step: "entropy_loop (v # vs) n entropy = entropy_loop vs n (entropy - p * log 2 p)"
    using pos assms(2) unfolding p_def by (simp add: Let_def)
  have "\<forall>v\<in>set vs. 1 \<le> v" using Cons.prems by simp
  from Cons.IH [OF this, of "entropy - p * log 2 p"] show ?case
    unfolding step by (simp add: p_def)
qed










section \<open>Solver.best_guess and the empty candidate set\<close>



section \<open>score_entropy\<close>

subsection \<open>Arithmetic of the entropy sum\<close>

lemma entropy_term:
  fixes v :: int and n :: nat
  assumes "1 \<le> v" "v \<le> int n"
  shows "0 \<le> - (real_of_int v / real n * log 2 (real_of_int v / real n))"
    and "- (real_of_int v / real n * log 2 (real_of_int v / real n)) = 0 \<longleftrightarrow> v = int n"
proof -
  have v: "0 < real_of_int v" "1 \<le> real_of_int v" using assms(1) by simp_all
  have n: "0 < real n" using assms by simp
  have vn: "real_of_int v \<le> real n" using assms(2) by (metis of_int_le_iff of_int_of_nat_eq)
  define p where "p = real_of_int v / real n"
  have p: "0 < p" "p \<le> 1"
    using v n vn by (simp_all add: p_def)
  have lg: "log 2 p \<le> 0"
    using p by (simp add: zero_less_one)
  show "0 \<le> - (real_of_int v / real n * log 2 (real_of_int v / real n))"
    using p lg unfolding p_def [symmetric] by (simp add: mult_nonneg_nonpos)
  have "- (p * log 2 p) = 0 \<longleftrightarrow> log 2 p = 0" using p(1) by simp
  also have "\<dots> \<longleftrightarrow> log 2 p \<le> 0 \<and> 0 \<le> log 2 p" by auto
  also have "\<dots> \<longleftrightarrow> p \<le> 1 \<and> 1 \<le> p" using p(1) by simp
  also have "\<dots> \<longleftrightarrow> p = 1" by auto
  also have "\<dots> \<longleftrightarrow> real_of_int v = real n" using n by (auto simp: p_def)
  also have "\<dots> \<longleftrightarrow> v = int n" by (metis of_int_eq_iff of_int_of_nat_eq)
  finally show "- (real_of_int v / real n * log 2 (real_of_int v / real n)) = 0 \<longleftrightarrow> v = int n"
    unfolding p_def .
qed

lemma member_le_sum_list_int:
  fixes vs :: "int list"
  assumes "\<forall>v\<in>set vs. 0 \<le> v" "x \<in> set vs"
  shows "x \<le> sum_list vs"
  using assms
proof (induction vs)
  case Nil
  then show ?case by simp
next
  case (Cons v vs)
  have "0 \<le> sum_list vs" using Cons.prems(1) by (simp add: sum_list_nonneg)
  then show ?case using Cons by auto
qed

lemma all_equal_sum_iff_single:
  fixes vs :: "int list"
  assumes "sum_list vs = m" "0 < m"
  shows "(\<forall>v\<in>set vs. v = m) \<longleftrightarrow> length vs = 1"
proof
  assume "\<forall>v\<in>set vs. v = m"
  then have "vs = replicate (length vs) m"
    by (simp add: replicate_length_same)
  then have "sum_list vs = int (length vs) * m"
    by (metis sum_list_replicate of_nat_mult mult.commute of_int_of_nat_eq of_nat_id
        semiring_1_class.of_nat_simps(2) of_int_eq_id id_apply)
  then have "int (length vs) * m = 1 * m" using assms(1) by simp
  then show "length vs = 1" using assms(2) by simp
next
  assume "length vs = 1"
  then obtain v where "vs = [v]" by (cases vs) auto
  then show "\<forall>v\<in>set vs. v = m" using assms(1) by simp
qed

lemma entropy_sum_sign:
  fixes vs :: "int list" and n :: nat
  assumes "\<forall>v\<in>set vs. 1 \<le> v" "sum_list vs = int n" "0 < n"
  defines "h \<equiv> - sum_list (map (\<lambda>v. real_of_int v / real n * log 2 (real_of_int v / real n)) vs)"
  shows "0 \<le> h" "h = 0 \<longleftrightarrow> length vs = 1"
proof -
  define t where "t = (\<lambda>v. - (real_of_int v / real n * log 2 (real_of_int v / real n)))"
  have h: "h = sum_list (map t vs)"
    unfolding h_def t_def by (induction vs) simp_all
  have le: "v \<le> int n" if "v \<in> set vs" for v
    using member_le_sum_list_int [of vs v] assms(1,2) that by force
  have t0: "0 \<le> t v" and t2: "t v = 0 \<longleftrightarrow> v = int n" if "v \<in> set vs" for v
    using entropy_term [of v n] assms(1) le that unfolding t_def by blast+
  show "0 \<le> h"
    unfolding h by (rule sum_list_nonneg) (use t0 in auto)
  have "h = 0 \<longleftrightarrow> (\<forall>x\<in>set (map t vs). x = 0)"
    unfolding h by (rule sum_list_nonneg_eq_0_iff) (use t0 in auto)
  also have "\<dots> \<longleftrightarrow> (\<forall>v\<in>set vs. v = int n)"
    using t2 by auto
  also have "\<dots> \<longleftrightarrow> length vs = 1"
    by (rule all_equal_sum_iff_single) (use assms in auto)
  finally show "h = 0 \<longleftrightarrow> length vs = 1" .
qed

lemma single_bucket_iff:
  assumes "is_word wl guess" "all_words wl S" "S \<noteq> []"
    "distinct (map fst b)" "fst ` set b = {p. \<exists>s\<in>set S. compute_pattern guess s wl = Inr p}"
  shows "length b = 1 \<longleftrightarrow> (\<exists>p. \<forall>s\<in>set S. compute_pattern guess s wl = Inr p)"
proof -
  define P where "P = {p. \<exists>s\<in>set S. compute_pattern guess s wl = Inr p}"
  have card: "length b = card P"
    using assms(4,5) distinct_card [of "map fst b"] by (simp add: P_def)
  have each: "\<exists>p. compute_pattern guess s wl = Inr p" if "s \<in> set S" for s
    using compute_pattern_ok [OF assms(1)] all_words_mem [OF assms(2) that] by blast
  show ?thesis
  proof
    assume "length b = 1"
    then obtain p where p: "P = {p}"
      using card by (metis card_1_singletonE)
    have "compute_pattern guess s wl = Inr p" if mem: "s \<in> set S" for s
    proof -
      obtain q where q: "compute_pattern guess s wl = Inr q" using each [OF mem] by blast
      then have "q \<in> P" using mem by (auto simp: P_def)
      then show ?thesis using p q by simp
    qed
    then show "\<exists>p. \<forall>s\<in>set S. compute_pattern guess s wl = Inr p" by blast
  next
    assume "\<exists>p. \<forall>s\<in>set S. compute_pattern guess s wl = Inr p"
    then obtain p where p: "\<forall>s\<in>set S. compute_pattern guess s wl = Inr p" by blast
    obtain s0 where "s0 \<in> set S" using assms(3) by (cases S) auto
    then have "P = {p}" using p by (auto simp: P_def)
    then show "length b = 1" using card by simp
  qed
qed

lemma compute_pattern_crane_slate: "compute_pattern ''crane'' ''slate'' 5 = Inr 20"
  by code_simp

lemma compute_pattern_crane_crane: "compute_pattern ''crane'' ''crane'' 5 = Inr 242"
  by code_simp

text \<open>
  Claim C6, as the code has it. For a guess and a non-empty candidate list of words of
  length \<open>wl\<close>, \<open>score_entropy\<close> returns a score \<open>h\<close> with \<open>0 \<le> h\<close>, and \<open>h = 0\<close>
  exactly when all candidates give the same pattern against the guess (a single bucket),
  which is always so when \<open>|S| \<le> 1\<close> but also happens for larger candidate sets. Both
  facts are about the sign of the sum only: every term is \<open>- p * log2 p\<close> with
  \<open>0 < p \<le> 1\<close>, which is \<open>0\<close> for \<open>p = 1\<close> and positive otherwise. No upper bound is
  stated.
\<close>

theorem score_entropy_zero_iff_one_bucket:
  assumes "is_word wl guess" "all_words wl S" "S \<noteq> []"
  shows "\<exists>h. score_entropy guess S wl = Inr h \<and> 0 \<le> h \<and>
           (h = 0 \<longleftrightarrow> (\<exists>p. \<forall>s\<in>set S. compute_pattern guess s wl = Inr p)) \<and>
           (length S \<le> 1 \<longrightarrow> h = 0)"
proof (cases "length S \<le> 1")
  case True
  then obtain s where S: "S = [s]"
    using assms(3) by (cases S) auto
  then have "is_word wl s" using assms(2) by (simp add: all_words_Cons)
  then obtain p where "compute_pattern guess s wl = Inr p"
    using compute_pattern_ok [OF assms(1)] by blast
  then show ?thesis
    using S by (simp add: score_entropy_def)
next
  case False
  obtain b where b: "bucket_sizes guess S wl = Inr b"
    "sum_list (dict_values b) = int (length S)" "distinct (map fst b)"
    "\<forall>v\<in>set (dict_values b). 1 \<le> v"
    "fst ` set b = {p. \<exists>s\<in>set S. compute_pattern guess s wl = Inr p}"
    using bucket_sizes_ok [OF assms(1,2)] by blast
  have n: "0 < length S" "length S \<noteq> 0" using False by arith+
  define h where "h = - sum_list (map (\<lambda>v. real_of_int v / real (length S)
                          * log 2 (real_of_int v / real (length S))) (dict_values b))"
  have run: "score_entropy guess S wl = Inr h"
    using False b(1) entropy_loop_ok [OF b(4) n(2), of 0]
    by (simp add: score_entropy_def Let_def h_def)
  have sign: "0 \<le> h" "h = 0 \<longleftrightarrow> length (dict_values b) = 1"
    using entropy_sum_sign [OF b(4,2) n(1)] unfolding h_def by blast+
  have "length (dict_values b) = 1 \<longleftrightarrow> (\<exists>p. \<forall>s\<in>set S. compute_pattern guess s wl = Inr p)"
    using single_bucket_iff [OF assms b(3,5)] by (simp add: dict_values_def)
  then show ?thesis
    using run sign False by auto
qed

text \<open>
  Two instances: three candidates in more than one bucket, where the score is positive,
  and two candidates in one bucket, where it is \<open>0\<close>.
\<close>

theorem score_entropy_zero_iff_one_bucket_witness:
  "is_word 5 ''crane'' \<and> all_words 5 [''slate'', ''crane'', ''trace''] \<and>
   [''slate'', ''crane'', ''trace''] \<noteq> [] \<and>
   compute_pattern ''crane'' ''slate'' 5 \<noteq> compute_pattern ''crane'' ''crane'' 5 \<and>
   (\<exists>h. score_entropy ''crane'' [''slate'', ''crane'', ''trace''] 5 = Inr h \<and> 0 < h) \<and>
   is_word 5 ''fuzzy'' \<and> all_words 5 [''crane'', ''slate''] \<and> [''crane'', ''slate''] \<noteq> [] \<and>
   compute_pattern ''fuzzy'' ''crane'' 5 = Inr 0 \<and> compute_pattern ''fuzzy'' ''slate'' 5 = Inr 0 \<and>
   (\<exists>h. score_entropy ''fuzzy'' [''crane'', ''slate''] 5 = Inr h \<and> h = 0)"
proof -
  have g: "is_word 5 ''crane''"
    by (simp add: is_word_def lowercase_def)
  have S: "all_words 5 [''slate'', ''crane'', ''trace'']"
    by (simp add: all_words_def is_word_def lowercase_def)
  have ne: "[''slate'', ''crane'', ''trace''] \<noteq> []"
    by simp
  have differ: "compute_pattern ''crane'' ''slate'' 5 \<noteq> compute_pattern ''crane'' ''crane'' 5"
    by (simp add: compute_pattern_crane_slate compute_pattern_crane_crane)
  then have many: "\<not> (\<exists>p. \<forall>s\<in>set [''slate'', ''crane'', ''trace''].
                       compute_pattern ''crane'' s 5 = Inr p)"
    by auto
  have pos: "\<exists>h. score_entropy ''crane'' [''slate'', ''crane'', ''trace''] 5 = Inr h \<and> 0 < h"
    using score_entropy_zero_iff_one_bucket [OF g S ne] many by force
  have g2: "is_word 5 ''fuzzy''"
    by (simp add: is_word_def lowercase_def)
  have S2: "all_words 5 [''crane'', ''slate'']"
    by (simp add: all_words_def is_word_def lowercase_def)
  have ne2: "[''crane'', ''slate''] \<noteq> []"
    by simp
  have grey: "compute_pattern ''fuzzy'' ''crane'' 5 = Inr 0"
    "compute_pattern ''fuzzy'' ''slate'' 5 = Inr 0"
    by code_simp+
  then have one: "\<exists>p. \<forall>s\<in>set [''crane'', ''slate'']. compute_pattern ''fuzzy'' s 5 = Inr p"
    by auto
  have zero: "\<exists>h. score_entropy ''fuzzy'' [''crane'', ''slate''] 5 = Inr h \<and> h = 0"
    using score_entropy_zero_iff_one_bucket [OF g2 S2 ne2] one by blast
  show ?thesis
    using g S ne differ pos g2 S2 ne2 grey zero by blast
qed

lemma bucket_sizes_fuzzy: "bucket_sizes ''fuzzy'' [''crane'', ''slate''] 5 = Inr [(0, 2)]"
  by code_simp

text \<open>
  The claim as the specification states it fails in its last part: against the guess
  \<open>fuzzy\<close> the two candidates \<open>crane\<close> and \<open>slate\<close> both give the all-grey pattern, so
  the only bucket has both, \<open>p = 2 / 2 = 1\<close> and the entropy is \<open>0\<close> although \<open>|S| = 2\<close>.
  (These operations are exact in floating point as well.)
\<close>

theorem score_entropy_zero_two_candidates:
  "score_entropy ''fuzzy'' [''crane'', ''slate''] 5 = Inr 0 \<and>
   \<not> length [''crane'', ''slate''] \<le> 1 \<and>
   is_word 5 ''fuzzy'' \<and> all_words 5 [''crane'', ''slate'']"
  by (simp add: score_entropy_def bucket_sizes_fuzzy dict_values_def
      all_words_def is_word_def lowercase_def)

section \<open>The pool scored under the frequency strategy\<close>

lemma frequency_example_constructed:
  "Solver (\<lambda>ws. 0) [''ax'', ''ay'', ''bz'', ''cz''] [''ax'', ''ay'', ''bz'', ''cz'', ''az'']
     ''frequency'' 2 6 False = Inr frequency_example"
  by (simp add: Solver_def get_strategy_def STRATEGIES_def frequency_example_def)

lemma frequency_example_candidates_only:
  "score_frequency_batch [''ax'', ''ay'', ''bz'', ''cz''] [''ax'', ''ay'', ''bz'', ''cz''] 2
     = Inr ''ax''"
  by code_simp

lemma frequency_example_full_pool:
  "score_frequency_batch [''ax'', ''ay'', ''bz'', ''cz'', ''az''] [''ax'', ''ay'', ''bz'', ''cz''] 2
     = Inr ''az''"
  by code_simp

lemma select_guess_pool_frequency:
  "strategy_name s = ''frequency'' \<Longrightarrow> select_guess_pool s turn = candidates s"
  by (simp add: select_guess_pool_def Let_def)

text \<open>
  Claim C1, as the code has it. For a solver configured with the frequency strategy,
  whenever \<open>best_guess\<close> performs scoring (more than two candidates and no memoized first
  guess applies), \<open>_select_guess_pool\<close> returns the candidate set, whatever its size and
  whatever else the guess pool holds: \<open>best_guess\<close> returns what the batch path
  \<open>score_frequency_batch\<close> selects among the candidates, and memoizes it on the first turn.
\<close>

theorem frequency_scores_candidates_only:
  assumes "strategy_name s = ''frequency''" "2 < length (candidates s)"
    "\<not> (turn = 1 \<and> length (candidates s) = length (initial_solutions s) \<and>
        cache (strategy_name s, word_length s, solutions_hash s) \<noteq> None)"
  shows "select_guess_pool s turn = candidates s \<and>
         best_guess cache s turn =
           (case score_frequency_batch (candidates s) (candidates s) (word_length s) of
              Inl e \<Rightarrow> Inl e
            | Inr best \<Rightarrow>
                Inr (best,
                     if turn = 1 \<and> length (candidates s) = length (initial_solutions s)
                     then cache((strategy_name s, word_length s, solutions_hash s) \<mapsto> best)
                     else cache))"
proof -
  have n: "length (candidates s) \<noteq> 0" "length (candidates s) \<noteq> 1" "length (candidates s) \<noteq> 2"
    using assms(2) by arith+
  show ?thesis
  proof (cases "turn = 1 \<and> length (candidates s) = length (initial_solutions s)")
    case True
    then have miss: "cache (''frequency'', word_length s, solutions_hash s) = None"
      using assms(1,3) by auto
    show ?thesis
      using True n
      by (simp add: best_guess_def Let_def select_guess_pool_frequency [OF assms(1)]
          assms(1) miss split: sum.splits)
  next
    case False
    then show ?thesis
      using n
      by (auto simp: best_guess_def Let_def select_guess_pool_frequency [OF assms(1)]
          assms(1) split: sum.splits)
  qed
qed

theorem frequency_scores_candidates_only_witness:
  "strategy_name frequency_example = ''frequency'' \<and>
   2 < length (candidates frequency_example) \<and>
   select_guess_pool frequency_example 1 = candidates frequency_example \<and>
   best_guess Map.empty frequency_example 1 =
     Inr (''ax'', Map.empty((''frequency'', 2, 0) \<mapsto> ''ax''))"
proof -
  have a: "strategy_name frequency_example = ''frequency''"
    by (simp add: frequency_example_def)
  have b: "2 < length (candidates frequency_example)"
    by (simp add: frequency_example_def)
  have c: "\<not> (1 = (1::int) \<and>
      length (candidates frequency_example) = length (initial_solutions frequency_example) \<and>
      Map.empty (strategy_name frequency_example, word_length frequency_example,
        solutions_hash frequency_example) \<noteq> (None :: bytes option))"
    by simp
  show ?thesis
    using a b frequency_scores_candidates_only [OF a b c]
    by (simp add: frequency_example_def frequency_example_candidates_only)
qed

text \<open>
  The claim as the specification states it, that the pool scored is the full guess pool,
  fails on \<open>frequency_example\<close>: with four candidates and an empty cache the pool selected
  is not the guess pool, and \<open>best_guess\<close> returns the candidate \<open>ax\<close> where scoring the
  full guess pool would have returned \<open>az\<close>.
\<close>

theorem frequency_does_not_score_full_pool:
  "strategy_name frequency_example = ''frequency'' \<and>
   2 < length (candidates frequency_example) \<and>
   Map.empty (strategy_name frequency_example, word_length frequency_example,
     solutions_hash frequency_example) = (None :: bytes option) \<and>
   select_guess_pool frequency_example 1 \<noteq> guess_pool frequency_example \<and>
   map_sum id fst (best_guess Map.empty frequency_example 1) = Inr ''ax'' \<and>
   score_frequency_batch (guess_pool frequency_example) (candidates frequency_example)
     (word_length frequency_example) = Inr ''az''"
  by (simp add: frequency_example_def select_guess_pool_def best_guess_def Let_def
      frequency_example_candidates_only frequency_example_full_pool)

end
